theory Spec2Isabelle
  imports Complex_Main
begin

section \<open>Python strings\<close>

text \<open>
  A Python \<open>str\<close> is modelled as a \<^typ>\<open>string\<close> whose characters are the code points
  0 to 255. The tables below are those of \<open>str.isalnum\<close>, \<open>str.lower\<close> and
  \<open>str.isspace\<close> on that range.
\<close>

definition code_point :: "char \<Rightarrow> nat" where
  "code_point c = of_char c"

definition in_range :: "nat \<Rightarrow> nat \<Rightarrow> nat \<Rightarrow> bool" where
  "in_range lo hi n = (lo \<le> n \<and> n \<le> hi)"

text \<open>\<open>char.isalnum()\<close>: digits, ASCII letters, and the Latin-1 letters and numerics.\<close>

definition isalnum :: "char \<Rightarrow> bool" where
  "isalnum c =
     (let n = code_point c in
      in_range 48 57 n \<or> in_range 65 90 n \<or> in_range 97 122 n \<or>
      n = 170 \<or> in_range 178 179 n \<or> n = 181 \<or> in_range 185 186 n \<or>
      in_range 188 190 n \<or> in_range 192 214 n \<or> in_range 216 246 n \<or>
      in_range 248 255 n)"

text \<open>\<open>char.lower()\<close>: one character for every code point below 256.\<close>

definition lower :: "char \<Rightarrow> char" where
  "lower c =
     (let n = code_point c in
      if in_range 65 90 n \<or> in_range 192 214 n \<or> in_range 216 222 n
      then char_of (n + 32) else c)"

section \<open>The palindrome tools (09\_Dynamic\_Chat\_Agents)\<close>

definition quote :: char where
  "quote = CHR 0x27"

text \<open>The two f-strings the tools return.\<close>

definition is_a_palindrome :: "string \<Rightarrow> string" where
  "is_a_palindrome text =
     ''The phrase or word '' @ [quote] @ text @ [quote] @ '' is a palindrome.''"

definition is_not_a_palindrome :: "string \<Rightarrow> string" where
  "is_not_a_palindrome text =
     ''The phrase or word '' @ [quote] @ text @ [quote] @ '' is not a palindrome.''"

definition check_palindrome :: "string \<Rightarrow> string" where
  "check_palindrome text =
     (let cleaned = map lower (filter isalnum text) in
      if cleaned = rev cleaned then is_a_palindrome text
      else is_not_a_palindrome text)"

definition palindrome_checker :: "string \<Rightarrow> string" where
  "palindrome_checker text =
     (let cleaned_text = map lower (filter isalnum text) in
      if cleaned_text = rev cleaned_text then is_a_palindrome text
      else is_not_a_palindrome text)"

section \<open>Exceptions\<close>

text \<open>
  Every \<open>raise\<close> of the Python is a value \<open>Inl e\<close> of a result type \<open>error + 'a\<close>.
  The first five are the built-in exceptions the tools and graph functions can raise;
  \<open>UpstreamError msg\<close> is whatever the chat model's \<open>invoke\<close> raised, with its \<open>str()\<close>;
  the last two are the registry errors of the specification.
\<close>

datatype error =
    ValueError
  | IndexError
  | KeyError
  | AttributeError
  | OverflowError
  | UpstreamError string
  | UnknownToolError
  | InvalidArgumentsError

section \<open>The hypotenuse tool (07\_LangChain\_agents)\<close>

subsection \<open>\<open>str.split\<close> and \<open>str.strip\<close>\<close>

text \<open>\<open>input.split(sep)\<close> for a one-character separator: never an empty list.\<close>

fun str_split :: "char \<Rightarrow> string \<Rightarrow> string list" where
  "str_split sep [] = [[]]"
| "str_split sep (c # cs) =
     (let fields = str_split sep cs in
      if c = sep then [] # fields else (c # hd fields) # tl fields)"

text \<open>\<open>sides[i]\<close>: a non-negative index into a list, raising \<open>IndexError\<close> out of range.\<close>

definition getitem :: "'a list \<Rightarrow> nat \<Rightarrow> error + 'a" where
  "getitem xs i = (if i < length xs then Inr (xs ! i) else Inl IndexError)"

definition isspace :: "char \<Rightarrow> bool" where
  "isspace c =
     (let n = code_point c in
      in_range 9 13 n \<or> in_range 28 32 n \<or> n = 133 \<or> n = 160)"

definition strip :: "string \<Rightarrow> string" where
  "strip s = rev (dropWhile isspace (rev (dropWhile isspace s)))"

subsection \<open>\<open>float()\<close>\<close>

text \<open>
  Which strings \<open>float()\<close> accepts is syntax, and is modelled in full:
  \<^verbatim>\<open>
  floatvalue ::= [sign] (floatnumber | "inf" | "infinity" | "nan")   case-insensitive
  floatnumber ::= number [exponent]
  number ::= [digitpart] "." digitpart | digitpart ["."]
  digitpart ::= digit (["_"] digit)*
  exponent ::= ("e" | "E") [sign] digitpart
  \<close>
  between optional leading and trailing whitespace. The value of an accepted string, and the
  arithmetic on it, are IEEE-754 binary64: they stay abstract, in a record of operations.
\<close>

definition is_digit :: "char \<Rightarrow> bool" where
  "is_digit c = in_range 48 57 (code_point c)"

definition is_sign :: "char \<Rightarrow> bool" where
  "is_sign c = (c = CHR ''+'' \<or> c = CHR ''-'')"

text \<open>After a first digit: what is left once \<open>(["_"] digit)*\<close> has been read.\<close>

fun digits_rest :: "string \<Rightarrow> string" where
  "digits_rest [] = []"
| "digits_rest (c # cs) =
     (if is_digit c then digits_rest cs
      else if c = CHR ''_'' then
        (case cs of
           [] \<Rightarrow> c # cs
         | d # ds \<Rightarrow> if is_digit d then digits_rest ds else c # cs)
      else c # cs)"

text \<open>Each parser returns what follows the part it read, or \<open>None\<close> when the part is absent.\<close>

definition digitpart :: "string \<Rightarrow> string option" where
  "digitpart s =
     (case s of
        [] \<Rightarrow> None
      | c # cs \<Rightarrow> if is_digit c then Some (digits_rest cs) else None)"

definition number :: "string \<Rightarrow> string option" where
  "number s =
     (case digitpart s of
        Some r \<Rightarrow>
          (case r of
             [] \<Rightarrow> Some r
           | c # r' \<Rightarrow>
               if c = CHR ''.'' then
                 (case digitpart r' of Some r'' \<Rightarrow> Some r'' | None \<Rightarrow> Some r')
               else Some r)
      | None \<Rightarrow>
          (case s of
             [] \<Rightarrow> None
           | c # r \<Rightarrow> if c = CHR ''.'' then digitpart r else None))"

definition exponent :: "string \<Rightarrow> string option" where
  "exponent r =
     (case r of
        [] \<Rightarrow> Some r
      | c # r1 \<Rightarrow>
          if c = CHR ''e'' \<or> c = CHR ''E'' then
            (case r1 of
               [] \<Rightarrow> None
             | s # r2 \<Rightarrow> if is_sign s then digitpart r2 else digitpart r1)
          else Some r)"

definition floatnumber :: "string \<Rightarrow> bool" where
  "floatnumber s =
     (case number s of
        None \<Rightarrow> False
      | Some r \<Rightarrow> exponent r = Some [])"

definition absfloatvalue :: "string \<Rightarrow> bool" where
  "absfloatvalue s =
     (floatnumber s \<or> map lower s = ''inf'' \<or> map lower s = ''infinity'' \<or>
      map lower s = ''nan'')"

definition floatvalue :: "string \<Rightarrow> bool" where
  "floatvalue s =
     (case s of
        [] \<Rightarrow> False
      | c # r \<Rightarrow> if is_sign c then absfloatvalue r else absfloatvalue s)"

text \<open>
  The whitespace \<open>float()\<close> itself discards around the number: narrower than \<open>str.strip\<close>'s
  (the separators 28 to 31 are not in it).
\<close>

definition float_space :: "char \<Rightarrow> bool" where
  "float_space c =
     (let n = code_point c in in_range 9 13 n \<or> n = 32 \<or> n = 133 \<or> n = 160)"

definition float_syntax :: "string \<Rightarrow> bool" where
  "float_syntax s =
     floatvalue (rev (dropWhile float_space (rev (dropWhile float_space s))))"

text \<open>
  The binary64 operations \<open>hypotenuse_length\<close> uses, over a type \<open>'f\<close> of floats:
  the value of an accepted string, \<open>x ** 2\<close> (\<open>None\<close>: \<open>OverflowError\<close>), \<open>x + y\<close>, and
  \<open>math.sqrt\<close> (\<open>None\<close>: \<open>ValueError\<close>, math domain error).
\<close>

record 'f float_ops =
  f_literal :: "string \<Rightarrow> 'f"
  f_square :: "'f \<Rightarrow> 'f option"
  f_add :: "'f \<Rightarrow> 'f \<Rightarrow> 'f"
  f_sqrt :: "'f \<Rightarrow> 'f option"

definition py_float :: "'f float_ops \<Rightarrow> string \<Rightarrow> error + 'f" where
  "py_float F s = (if float_syntax s then Inr (f_literal F s) else Inl ValueError)"

definition square :: "'f float_ops \<Rightarrow> 'f \<Rightarrow> error + 'f" where
  "square F x = (case f_square F x of None \<Rightarrow> Inl OverflowError | Some y \<Rightarrow> Inr y)"

definition math_sqrt :: "'f float_ops \<Rightarrow> 'f \<Rightarrow> error + 'f" where
  "math_sqrt F x = (case f_sqrt F x of None \<Rightarrow> Inl ValueError | Some y \<Rightarrow> Inr y)"

subsection \<open>The handler\<close>

text \<open>
  Statement by statement, in the order Python evaluates them: the first exception raised is
  the result.
\<close>

definition hypotenuse_length :: "'f float_ops \<Rightarrow> string \<Rightarrow> error + 'f" where
  "hypotenuse_length F input =
     (let sides = str_split CHR '','' input in
      case getitem sides 0 of Inl e \<Rightarrow> Inl e | Inr s0 \<Rightarrow>
      case py_float F (strip s0) of Inl e \<Rightarrow> Inl e | Inr a \<Rightarrow>
      case getitem sides 1 of Inl e \<Rightarrow> Inl e | Inr s1 \<Rightarrow>
      case py_float F (strip s1) of Inl e \<Rightarrow> Inl e | Inr b \<Rightarrow>
      case square F a of Inl e \<Rightarrow> Inl e | Inr a2 \<Rightarrow>
      case square F b of Inl e \<Rightarrow> Inl e | Inr b2 \<Rightarrow>
      math_sqrt F (f_add F a2 b2))"

section \<open>The date tools (09\_Dynamic\_Chat\_Agents)\<close>

text \<open>
  \<open>llm.invoke(prompt)\<close> is a call to an external service: it returns the content of the
  answer (\<open>Inr\<close>), or raises an exception \<open>e\<close> (\<open>Inl\<close> of \<open>str(e)\<close>).
\<close>

type_synonym llm = "string \<Rightarrow> string + string"

definition date_checker :: "llm \<Rightarrow> string \<Rightarrow> string" where
  "date_checker llm date =
     (case llm (''List important historical events that occurred on '' @ date @ ''.'') of
        Inr answer_content \<Rightarrow> answer_content
      | Inl str_e \<Rightarrow> ''Error retrieving events: '' @ str_e)"

definition historical_events :: "llm \<Rightarrow> string \<Rightarrow> string" where
  "historical_events llm date_input =
     (case llm (''List important historical events that occurred on '' @ date_input @ ''.'') of
        Inr response_content \<Rightarrow> response_content
      | Inl str_e \<Rightarrow> ''Error retrieving events: '' @ str_e)"

section \<open>Messages and the conversation state\<close>

text \<open>
  A tool call is a dict. The specification gives it the keys \<open>id\<close>, \<open>tool_name\<close> and
  \<open>arguments\<close>; \<open>call_model\<close> reads one more key, \<open>"response"\<close>, which a dict may lack.
\<close>

record tool_call =
  call_id :: string
  tool_name :: string
  arguments :: string
  response :: "string option"

text \<open>
  The message classes. Only an \<open>AIMessage\<close> has the attribute \<open>tool_calls\<close>; a
  \<open>ToolMessage\<close> carries the id of the call it answers.
\<close>

datatype message =
    HumanMessage string
  | AIMessage string "tool_call list"
  | ToolMessage string string

fun content :: "message \<Rightarrow> string" where
  "content (HumanMessage c) = c"
| "content (AIMessage c tcs) = c"
| "content (ToolMessage c i) = c"

text \<open>\<open>last_message.tool_calls\<close>: \<open>AttributeError\<close> on a message class without the attribute.\<close>

fun tool_calls :: "message \<Rightarrow> error + tool_call list" where
  "tool_calls (AIMessage c tcs) = Inr tcs"
| "tool_calls (HumanMessage c) = Inl AttributeError"
| "tool_calls (ToolMessage c i) = Inl AttributeError"

text \<open>The guard of \<open>call_model\<close>: \<open>isinstance(m, AIMessage) and m.tool_calls\<close>.\<close>

fun has_tool_calls :: "message \<Rightarrow> bool" where
  "has_tool_calls (AIMessage c tcs) = (tcs \<noteq> [])"
| "has_tool_calls (HumanMessage c) = False"
| "has_tool_calls (ToolMessage c i) = False"

fun is_ToolMessage :: "message \<Rightarrow> bool" where
  "is_ToolMessage (ToolMessage c i) = True"
| "is_ToolMessage (HumanMessage c) = False"
| "is_ToolMessage (AIMessage c tcs) = False"

record MessagesState =
  messages :: "message list"

text \<open>\<open>state["messages"][-1]\<close>: \<open>IndexError\<close> on an empty list.\<close>

definition last_message :: "MessagesState \<Rightarrow> error + message" where
  "last_message state =
     (if messages state = [] then Inl IndexError else Inr (last (messages state)))"

text \<open>
  The reducer of \<open>MessagesState\<close>: a node's update is appended to the log. (The library's
  reducer also replaces a message by an update with the same message id; messages carry no
  id here, and every update is new.)
\<close>

definition add_messages :: "MessagesState \<Rightarrow> message list \<Rightarrow> MessagesState" where
  "add_messages state update = state\<lparr>messages := messages state @ update\<rparr>"

section \<open>The workflow (09\_Dynamic\_Chat\_Agents)\<close>

datatype node = START | Chatbot | Tools | END

subsection \<open>\<open>should_continue\<close>\<close>

text \<open>The routing function, as the first cell writes it (a conditional expression).\<close>

definition should_continue :: "MessagesState \<Rightarrow> error + node" where
  "should_continue state =
     (case last_message state of
        Inl e \<Rightarrow> Inl e
      | Inr m \<Rightarrow>
          (case tool_calls m of
             Inl e \<Rightarrow> Inl e
           | Inr tcs \<Rightarrow> Inr (if tcs \<noteq> [] then Tools else END)))"

text \<open>The second cell defines it again, with an \<open>if\<close> statement and two returns.\<close>

definition should_continue_2 :: "MessagesState \<Rightarrow> error + node" where
  "should_continue_2 state =
     (case last_message state of
        Inl e \<Rightarrow> Inl e
      | Inr m \<Rightarrow>
          (case tool_calls m of
             Inl e \<Rightarrow> Inl e
           | Inr tcs \<Rightarrow> if tcs \<noteq> [] then Inr Tools else Inr END))"

subsection \<open>\<open>call_model\<close>\<close>

text \<open>
  \<open>model_with_tools.invoke(messages)\<close>: an external call that returns an \<open>AIMessage\<close>, given
  here by its content and tool calls (\<open>Inr\<close>), or raises (\<open>Inl\<close> of \<open>str(e)\<close>).
\<close>

type_synonym chat_model = "message list \<Rightarrow> string + string \<times> tool_call list"

text \<open>The last line of \<open>call_model\<close>: the model's answer to the whole log, as the update.\<close>

definition invoke_model :: "chat_model \<Rightarrow> MessagesState \<Rightarrow> error + message list" where
  "invoke_model model_with_tools state =
     (case model_with_tools (messages state) of
        Inl str_e \<Rightarrow> Inl (UpstreamError str_e)
      | Inr (c, tcs) \<Rightarrow> Inr [AIMessage c tcs])"

text \<open>\<open>last_message.tool_calls[0]["response"]\<close>, on a non-empty list of tool calls.\<close>

definition first_response :: "tool_call list \<Rightarrow> error + string" where
  "first_response tcs =
     (case getitem tcs 0 of
        Inl e \<Rightarrow> Inl e
      | Inr tc \<Rightarrow> (case response tc of None \<Rightarrow> Inl KeyError | Some r \<Rightarrow> Inr r))"

definition call_model :: "chat_model \<Rightarrow> MessagesState \<Rightarrow> error + message list" where
  "call_model model_with_tools state =
     (case last_message state of
        Inl e \<Rightarrow> Inl e
      | Inr m \<Rightarrow>
          (case m of
             AIMessage c tcs \<Rightarrow>
               if tcs \<noteq> [] then
                 (case first_response tcs of
                    Inl e \<Rightarrow> Inl e
                  | Inr r \<Rightarrow> Inr [AIMessage r []])
               else invoke_model model_with_tools state
           | HumanMessage c \<Rightarrow> invoke_model model_with_tools state
           | ToolMessage c i \<Rightarrow> invoke_model model_with_tools state))"

subsection \<open>The tools node\<close>

text \<open>
  Modelled from the spec: the tool registry. \<open>ToolNode\<close> is a class of the graph library;
  the source only constructs it (\<open>tool_node = ToolNode(tools)\<close>). Section 3 gives a
  \<open>ToolSpec\<close> a name, a description, an input schema and a handler mapping validated input
  to text, and a \<open>ToolResult\<close> the id of its call and a content.
\<close>

record tool_spec =
  name :: string
  description :: string
  input_schema :: "string \<Rightarrow> bool"
  handler :: "string \<Rightarrow> error + string"

type_synonym tool_registry = "tool_spec list"

record tool_result =
  tool_call_id :: string
  result_content :: string

text \<open>
  Modelled from the spec: \<open>resolve(name)\<close> of section 4.1, missing from the source; it
  fails with \<open>UnknownToolError\<close> if the name is absent.
\<close>

definition resolve :: "tool_registry \<Rightarrow> string \<Rightarrow> error + tool_spec" where
  "resolve registry n =
     (case find (\<lambda>spec. name spec = n) registry of
        None \<Rightarrow> Inl UnknownToolError
      | Some spec \<Rightarrow> Inr spec)"

text \<open>
  Modelled from the spec: the human-readable error string a handler failure is converted
  to (section 4.1), missing from the source.
\<close>

fun error_string :: "error \<Rightarrow> string" where
  "error_string ValueError = ''Error: ValueError''"
| "error_string IndexError = ''Error: IndexError''"
| "error_string KeyError = ''Error: KeyError''"
| "error_string AttributeError = ''Error: AttributeError''"
| "error_string OverflowError = ''Error: OverflowError''"
| "error_string (UpstreamError str_e) = ''Error: '' @ str_e"
| "error_string UnknownToolError = ''Error: UnknownToolError''"
| "error_string InvalidArgumentsError = ''Error: InvalidArgumentsError''"

text \<open>
  Modelled from the spec: \<open>invoke(call)\<close> of section 4.1, missing from the source. It
  validates the arguments against the tool's input schema (\<open>InvalidArgumentsError\<close> on
  mismatch), executes the handler, and never propagates a handler exception: the failure
  becomes the content of the result.
\<close>

definition invoke :: "tool_registry \<Rightarrow> tool_call \<Rightarrow> error + tool_result" where
  "invoke registry call =
     (case resolve registry (tool_name call) of
        Inl e \<Rightarrow> Inl e
      | Inr spec \<Rightarrow>
          if \<not> input_schema spec (arguments call) then Inl InvalidArgumentsError
          else
            Inr \<lparr>tool_call_id = call_id call,
                 result_content =
                   (case handler spec (arguments call) of
                      Inr text \<Rightarrow> text
                    | Inl e \<Rightarrow> error_string e)\<rparr>)"

text \<open>
  Modelled from the spec: the \<open>EXECUTING_TOOLS\<close> step of section 4.3, which the source
  leaves to \<open>ToolNode\<close>. For each tool call of the assistant message, in the order they
  appear, it invokes the registry, and appends each result as a tool-role message in the
  same order; a registry error escapes.
\<close>

fun invoke_all :: "tool_registry \<Rightarrow> tool_call list \<Rightarrow> error + message list" where
  "invoke_all registry [] = Inr []"
| "invoke_all registry (call # calls) =
     (case invoke registry call of
        Inl e \<Rightarrow> Inl e
      | Inr r \<Rightarrow>
          (case invoke_all registry calls of
             Inl e \<Rightarrow> Inl e
           | Inr ms \<Rightarrow> Inr (ToolMessage (result_content r) (tool_call_id r) # ms)))"

definition tool_node :: "tool_registry \<Rightarrow> MessagesState \<Rightarrow> error + message list" where
  "tool_node registry state =
     (case last_message state of
        Inl e \<Rightarrow> Inl e
      | Inr m \<Rightarrow>
          (case tool_calls m of
             Inl e \<Rightarrow> Inl e
           | Inr tcs \<Rightarrow> invoke_all registry tcs))"

text \<open>
  The tools the notebook bundles: \<open>tools = [date_checker, check_palindrome]\<close>, each under
  its function name and docstring, taking any string.
\<close>

definition tools :: "llm \<Rightarrow> tool_registry" where
  "tools llm =
     [\<lparr>name = ''date_checker'',
       description = ''Provide a list of important historical events for a given date.'',
       input_schema = (\<lambda>date. True),
       handler = (\<lambda>date. Inr (date_checker llm date))\<rparr>,
      \<lparr>name = ''check_palindrome'',
       description = ''Check if a word or phrase is a palindrome.'',
       input_schema = (\<lambda>text. True),
       handler = (\<lambda>text. Inr (check_palindrome text))\<rparr>]"

subsection \<open>The graph\<close>

text \<open>
  The nodes and edges are the source's:
  \<^verbatim>\<open>
  workflow.add_node("chatbot", call_model)
  workflow.add_node("tools", tool_node)
  workflow.add_edge(START, "chatbot")
  workflow.add_conditional_edges("chatbot", should_continue, ["tools", END])
  workflow.add_edge("tools", "chatbot")
  \<close>
\<close>

definition node_function ::
  "chat_model \<Rightarrow> tool_registry \<Rightarrow> node \<Rightarrow> MessagesState \<Rightarrow> error + message list"
  where
  "node_function model_with_tools registry n state =
     (case n of
        START \<Rightarrow> Inr []
      | Chatbot \<Rightarrow> call_model model_with_tools state
      | Tools \<Rightarrow> tool_node registry state
      | END \<Rightarrow> Inr [])"

definition edge :: "node \<Rightarrow> MessagesState \<Rightarrow> error + node" where
  "edge n state =
     (case n of
        START \<Rightarrow> Inr Chatbot
      | Chatbot \<Rightarrow> should_continue state
      | Tools \<Rightarrow> Inr Chatbot
      | END \<Rightarrow> Inr END)"

text \<open>
  Modelled from the spec: how a graph is run, which the source leaves to the graph
  library. As in section 4.3, a step runs the function of the current node on the state,
  appends its update to the log, and follows the node's edge from the new state; \<open>END\<close> is
  terminal; an exception raised by a node or by the routing function ends the run.
\<close>

definition step ::
  "chat_model \<Rightarrow> tool_registry \<Rightarrow> node \<Rightarrow> MessagesState \<Rightarrow> error + node \<times> MessagesState"
  where
  "step model_with_tools registry n state =
     (case node_function model_with_tools registry n state of
        Inl e \<Rightarrow> Inl e
      | Inr update \<Rightarrow>
          (case edge n (add_messages state update) of
             Inl e \<Rightarrow> Inl e
           | Inr n' \<Rightarrow> Inr (n', add_messages state update)))"

text \<open>
  The run after at most \<open>k\<close> steps: the node it has reached (\<open>END\<close> when it is over) and
  the state there. Neither the source nor the transitions of section 4.3 bound the number
  of steps, so \<open>k\<close> is only how far the run is observed, not a limit of the workflow.
\<close>

fun run ::
  "chat_model \<Rightarrow> tool_registry \<Rightarrow> nat \<Rightarrow> node \<Rightarrow> MessagesState \<Rightarrow> error + node \<times> MessagesState"
  where
  "run model_with_tools registry 0 n state = Inr (n, state)"
| "run model_with_tools registry (Suc k) n state =
     (if n = END then Inr (END, state)
      else
        (case step model_with_tools registry n state of
           Inl e \<Rightarrow> Inl e
         | Inr (n', state') \<Rightarrow> run model_with_tools registry k n' state'))"

subsection \<open>Tool calls and their results in a log\<close>

text \<open>
  \<open>pending ids msgs\<close> reads a log \<open>msgs\<close> in which the results for \<open>ids\<close> are still awaited, and
  returns the ids awaited at its end, or \<open>None\<close> if a message other than the next awaited
  result comes first. With nothing awaited, an assistant message makes the ids of its tool
  calls awaited, in their order.
\<close>

fun pending :: "string list \<Rightarrow> message list \<Rightarrow> string list option" where
  "pending ids [] = Some ids"
| "pending [] (HumanMessage c # msgs) = pending [] msgs"
| "pending [] (AIMessage c tcs # msgs) = pending (map call_id tcs) msgs"
| "pending [] (ToolMessage c i # msgs) = pending [] msgs"
| "pending (p # ids) (ToolMessage c i # msgs) = (if i = p then pending ids msgs else None)"
| "pending (p # ids) (HumanMessage c # msgs) = None"
| "pending (p # ids) (AIMessage c tcs # msgs) = None"

text \<open>Every tool call of the log has its result, in order, before the next message.\<close>

definition paired :: "message list \<Rightarrow> bool" where
  "paired msgs = (pending [] msgs = Some [])"

text \<open>The tool message that answers a given call.\<close>

fun answers :: "tool_call \<Rightarrow> message \<Rightarrow> bool" where
  "answers tc (ToolMessage c i) = (i = call_id tc)"
| "answers tc (HumanMessage c) = False"
| "answers tc (AIMessage c tcs) = False"

text \<open>
  What holds of the log at each node: at the tools node it ends with an assistant message
  that has tool calls, after a paired log; everywhere else it is paired.
\<close>

fun log_ok :: "node \<Rightarrow> message list \<Rightarrow> bool" where
  "log_ok Tools msgs =
     (case msgs of
        [] \<Rightarrow> False
      | m # ms \<Rightarrow>
          (case last msgs of
             AIMessage c tcs \<Rightarrow> tcs \<noteq> [] \<and> paired (butlast msgs)
           | HumanMessage c \<Rightarrow> False
           | ToolMessage c i \<Rightarrow> False))"
| "log_ok START msgs = paired msgs"
| "log_ok Chatbot msgs = paired msgs"
| "log_ok END msgs = paired msgs"

subsection \<open>Three chat models to run the graph with\<close>

text \<open>
  A model that answers at once, one that asks for a tool on every turn, and one that
  asks for the palindrome tool once and answers when it sees the result.
\<close>

definition answering_model :: chat_model where
  "answering_model msgs = Inr (''model answer'', [])"

definition palindrome_call :: "string \<Rightarrow> tool_call" where
  "palindrome_call text =
     \<lparr>call_id = ''call_1'', tool_name = ''check_palindrome'', arguments = text,
      response = None\<rparr>"


definition palindrome_agent :: chat_model where
  "palindrome_agent msgs =
     (if msgs = [] then Inr ('''', [])
      else
        (case last msgs of
           ToolMessage c i \<Rightarrow> Inr (c, [])
         | HumanMessage c \<Rightarrow> Inr ('''', [palindrome_call ''level''])
         | AIMessage c tcs \<Rightarrow> Inr (c, [])))"

definition no_llm :: llm where
  "no_llm prompt = Inl ''Connection error.''"

section \<open>An interpretation of the float operations\<close>

text \<open>
  An interpretation that performs no arithmetic: a value is the expression the handler
  has built, and no operation fails. It shows which operations a run performs, on what.
\<close>

datatype fexpr = Literal string | Square fexpr | Add fexpr fexpr | Sqrt fexpr

definition symbolic :: "fexpr float_ops" where
  "symbolic =
     \<lparr>f_literal = Literal,
      f_square = (\<lambda>x. Some (Square x)),
      f_add = Add,
      f_sqrt = (\<lambda>x. Some (Sqrt x))\<rparr>"

section \<open>Logs and tool calls to run the graph on\<close>


text \<open>Logs to start a run on: a user's question, and an assistant message with a tool call.\<close>

definition question :: MessagesState where
  "question = \<lparr>messages = [HumanMessage ''Is `level` a palindrome?'']\<rparr>"

definition question_2 :: string where
  "question_2 = ''What about `palladium stadium`?''"


text \<open>The log once the assistant has asked for the palindrome tool, and the tool's result.\<close>

definition asked :: MessagesState where
  "asked =
     \<lparr>messages =
        [HumanMessage ''Is `level` a palindrome?'', AIMessage '''' [palindrome_call ''level'']]\<rparr>"

definition tool_answer :: "message list" where
  "tool_answer = [ToolMessage (check_palindrome ''level'') ''call_1'']"

section \<open>Binary64 floats\<close>

text \<open>
  A Python \<open>float\<close> is an IEEE-754 binary64 number: a finite value, an infinity or a NaN.
  A finite float is given here by its exact value, a rational \<open>m * 2 ^ e\<close> with
  \<open>\<bar>m\<bar> < 2 ^ 53\<close> and \<open>- 1074 \<le> e \<le> 971\<close>. The sign of a zero is not modelled: no operation
  of the handler depends on it.
\<close>

datatype float64 = Finite rat | PosInf | NegInf | NaN

definition pow2 :: "int \<Rightarrow> rat" where
  "pow2 e = (if 0 \<le> e then 2 ^ nat e else 1 / 2 ^ nat (- e))"

definition pow10 :: "int \<Rightarrow> rat" where
  "pow10 e = (if 0 \<le> e then 10 ^ nat e else 1 / 10 ^ nat (- e))"

text \<open>The number of binary digits of a natural number.\<close>

fun bit_length :: "nat \<Rightarrow> nat" where
  "bit_length n = (if n = 0 then 0 else Suc (bit_length (n div 2)))"

text \<open>For \<open>q > 0\<close>: the exponent \<open>e\<close> with \<open>2 ^ e \<le> q < 2 ^ (e + 1)\<close>.\<close>

definition floor_log2 :: "rat \<Rightarrow> int" where
  "floor_log2 q =
     (let (a, b) = quotient_of q;
          e = int (bit_length (nat a)) - int (bit_length (nat b))
      in if pow2 e \<le> q then e else e - 1)"

text \<open>The nearest integer, a tie going to the even one.\<close>

definition round_half_even :: "rat \<Rightarrow> int" where
  "round_half_even q =
     (let f = \<lfloor>q\<rfloor>; d = q - of_int f
      in if d < 1 / 2 then f
         else if 1 / 2 < d then f + 1
         else if even f then f else f + 1)"

text \<open>
  Rounding to binary64, to the nearest float and to an even significand on a tie: the
  significand has 53 bits, down to the exponent \<open>- 1022\<close> (below it the spacing stays
  \<open>2 ^ - 1074\<close>), and a result of \<open>2 ^ 1024\<close> or more is an infinity.
\<close>

definition round64 :: "rat \<Rightarrow> float64" where
  "round64 q =
     (if q = 0 then Finite 0
      else
        (let a = \<bar>q\<bar>;
             e = max (floor_log2 a) (- 1022);
             ulp = pow2 (e - 52);
             r = of_int (round_half_even (a / ulp)) * ulp
         in if pow2 1024 \<le> r then (if 0 < q then PosInf else NegInf)
            else Finite (if 0 < q then r else - r)))"

subsection \<open>\<open>float(s)\<close> on an accepted string\<close>

definition digits_value :: "string \<Rightarrow> nat" where
  "digits_value s = foldl (\<lambda>n c. 10 * n + (code_point c - 48)) 0 (filter is_digit s)"

definition is_e :: "char \<Rightarrow> bool" where
  "is_e c = (c = CHR ''e'' \<or> c = CHR ''E'')"

text \<open>
  The exact value of an unsigned \<open>floatnumber\<close>: the digits before and after the point,
  underscores left out, scaled by the power of ten of the exponent.
\<close>

definition decimal_value :: "string \<Rightarrow> rat" where
  "decimal_value s =
     (let significand = takeWhile (\<lambda>c. \<not> is_e c) s;
          exponent_part = drop (Suc (length significand)) s;
          integer_part = takeWhile (\<lambda>c. c \<noteq> CHR ''.'') significand;
          fraction_part = filter is_digit (drop (Suc (length integer_part)) significand);
          e = (case exponent_part of
                 [] \<Rightarrow> 0
               | c # cs \<Rightarrow>
                   if c = CHR ''-'' then - int (digits_value cs)
                   else int (digits_value exponent_part))
      in of_nat (digits_value (integer_part @ fraction_part)) *
         pow10 (e - int (length fraction_part)))"

text \<open>\<open>float(s)\<close> is correctly rounded: the float nearest to the decimal value.\<close>

definition float_of_string :: "string \<Rightarrow> float64" where
  "float_of_string s =
     (let t = rev (dropWhile float_space (rev (dropWhile float_space s)));
          negative = (t \<noteq> [] \<and> hd t = CHR ''-'');
          u = (if t \<noteq> [] \<and> is_sign (hd t) then tl t else t)
      in if map lower u = ''inf'' \<or> map lower u = ''infinity''
         then (if negative then NegInf else PosInf)
         else if map lower u = ''nan'' then NaN
         else round64 (if negative then - decimal_value u else decimal_value u))"

subsection \<open>The arithmetic of \<open>hypotenuse_length\<close>\<close>

text \<open>
  \<open>x ** 2\<close>: the rounded square; Python raises \<open>OverflowError\<close> when the square of a finite
  float is out of range.
\<close>

fun square64 :: "float64 \<Rightarrow> float64 option" where
  "square64 (Finite x) = (case round64 (x * x) of Finite y \<Rightarrow> Some (Finite y) | _ \<Rightarrow> None)"
| "square64 PosInf = Some PosInf"
| "square64 NegInf = Some PosInf"
| "square64 NaN = Some NaN"

text \<open>\<open>x + y\<close>: the rounded sum; an overflow gives an infinity, with no exception.\<close>

fun add64 :: "float64 \<Rightarrow> float64 \<Rightarrow> float64" where
  "add64 (Finite x) (Finite y) = round64 (x + y)"
| "add64 NaN y = NaN"
| "add64 x NaN = NaN"
| "add64 PosInf NegInf = NaN"
| "add64 NegInf PosInf = NaN"
| "add64 PosInf y = PosInf"
| "add64 NegInf y = NegInf"
| "add64 x PosInf = PosInf"
| "add64 x NegInf = NegInf"

text \<open>The integer square root: the largest \<open>r\<close> with \<open>r * r \<le> n\<close>.\<close>

definition next_root :: "nat \<Rightarrow> nat \<Rightarrow> nat" where
  "next_root r n = (if (r + 1) * (r + 1) \<le> n then r + 1 else r)"

fun isqrt :: "nat \<Rightarrow> nat" where
  "isqrt n = (if n < 2 then n else next_root (2 * isqrt (n div 4)) n)"

text \<open>
  \<open>math.sqrt(x)\<close>: the correctly rounded square root; \<open>ValueError\<close> (math domain error) on a
  negative argument.
\<close>

definition sqrt_rounded :: "rat \<Rightarrow> rat" where
  "sqrt_rounded x =
     (let e = floor_log2 x div 2;
          ulp = pow2 (e - 52);
          y = x / (ulp * ulp);
          m = isqrt (nat \<lfloor>y\<rfloor>);
          h = of_nat m + 1 / 2
      in if y < h * h then of_nat m * ulp
         else if h * h < y then of_nat (m + 1) * ulp
         else if even m then of_nat m * ulp else of_nat (m + 1) * ulp)"

fun sqrt64 :: "float64 \<Rightarrow> float64 option" where
  "sqrt64 (Finite x) =
     (if x < 0 then None else if x = 0 then Some (Finite 0) else Some (Finite (sqrt_rounded x)))"
| "sqrt64 PosInf = Some PosInf"
| "sqrt64 NegInf = None"
| "sqrt64 NaN = Some NaN"

definition binary64 :: "float64 float_ops" where
  "binary64 =
     \<lparr>f_literal = float_of_string,
      f_square = square64,
      f_add = add64,
      f_sqrt = sqrt64\<rparr>"

section \<open>Properties of the palindrome tools\<close>

lemmas char_tables = isalnum_def lower_def code_point_def in_range_def char_of_eq_iff

lemma verdicts_differ: "is_a_palindrome text \<noteq> is_not_a_palindrome text"
  by (simp add: is_a_palindrome_def is_not_a_palindrome_def)

lemma check_palindrome_same: "check_palindrome text = palindrome_checker text"
  by (simp add: check_palindrome_def palindrome_checker_def)

text \<open>
  Claim C7: the palindrome tool applied to \<open>level\<close> returns the affirmative statement, the
  string asserting that 'level' is a palindrome. Both cells' tools do.
\<close>

theorem palindrome_level:
  "palindrome_checker ''level'' = ''The phrase or word 'level' is a palindrome.'' \<and>
   check_palindrome ''level'' = ''The phrase or word 'level' is a palindrome.''"
  by (simp add: check_palindrome_def palindrome_checker_def is_a_palindrome_def quote_def
      char_tables)

text \<open>
  Claim C9: for every input, the palindrome tool reports a palindrome if and only if the
  subsequence of its alphanumeric characters, lowercased, equals its own reverse, and
  reports the contrary otherwise. So the verdict is the same for two inputs that differ
  only in case, spaces and punctuation, and an input with no alphanumeric character at
  all is reported as a palindrome.
\<close>

theorem palindrome_checker_iff:
  "(palindrome_checker text = is_a_palindrome text \<longleftrightarrow>
      map lower (filter isalnum text) = rev (map lower (filter isalnum text))) \<and>
   (palindrome_checker text = is_not_a_palindrome text \<longleftrightarrow>
      map lower (filter isalnum text) \<noteq> rev (map lower (filter isalnum text))) \<and>
   check_palindrome text = palindrome_checker text \<and>
   (filter isalnum text = [] \<longrightarrow> palindrome_checker text = is_a_palindrome text) \<and>
   (map lower (filter isalnum text) = map lower (filter isalnum text') \<longrightarrow>
      (palindrome_checker text = is_a_palindrome text \<longleftrightarrow>
       palindrome_checker text' = is_a_palindrome text'))"
proof -
  have affirm: "palindrome_checker t = is_a_palindrome t \<longleftrightarrow>
      map lower (filter isalnum t) = rev (map lower (filter isalnum t))" for t
    using verdicts_differ [of t] by (auto simp: palindrome_checker_def Let_def)
  have deny: "palindrome_checker t = is_not_a_palindrome t \<longleftrightarrow>
      map lower (filter isalnum t) \<noteq> rev (map lower (filter isalnum t))" for t
    using verdicts_differ [of t] by (auto simp: palindrome_checker_def Let_def)
  show ?thesis
    using affirm [of "text"] affirm [of "text'"] deny [of "text"]
      check_palindrome_same [of "text"]
    by auto
qed

theorem palindrome_checker_iff_witness:
  "filter isalnum ''?! ...'' = [] \<and>
   palindrome_checker ''?! ...'' = is_a_palindrome ''?! ...'' \<and>
   map lower (filter isalnum ''Stella won no wallets'') =
     map lower (filter isalnum ''stellawonnowallets'') \<and>
   palindrome_checker ''Stella won no wallets'' = is_a_palindrome ''Stella won no wallets'' \<and>
   palindrome_checker ''stellawonnowallets'' = is_a_palindrome ''stellawonnowallets''"
proof -
  have none: "filter isalnum ''?! ...'' = []"
    by (simp add: char_tables)
  have same: "map lower (filter isalnum ''Stella won no wallets'') =
     map lower (filter isalnum ''stellawonnowallets'')"
    by (simp add: char_tables)
  have pal: "map lower (filter isalnum ''stellawonnowallets'') =
     rev (map lower (filter isalnum ''stellawonnowallets''))"
    by (simp add: char_tables)
  note thm1 = palindrome_checker_iff [of "''?! ...''" "''?! ...''"]
  note thm2 = palindrome_checker_iff [of "''stellawonnowallets''" "''Stella won no wallets''"]
  have t1: "palindrome_checker ''?! ...'' = is_a_palindrome ''?! ...''"
    using thm1 none by blast
  have t2: "palindrome_checker ''stellawonnowallets'' = is_a_palindrome ''stellawonnowallets''"
    using thm2 pal by blast
  have t3: "palindrome_checker ''Stella won no wallets'' =
      is_a_palindrome ''Stella won no wallets''"
    using thm2 same t2 by metis
  show ?thesis
    using none same t1 t2 t3 by blast
qed

section \<open>Properties of the hypotenuse tool\<close>

lemma str_split_not_Nil: "str_split sep s \<noteq> []"
  by (induction s) (auto simp: Let_def)

lemma str_split_no_sep: "sep \<notin> set a \<Longrightarrow> str_split sep a = [a]"
  by (induction a) (auto simp: Let_def)

lemma str_split_append:
  "sep \<notin> set a \<Longrightarrow> str_split sep (a @ sep # r) = a # str_split sep r"
  by (induction a) (auto simp: Let_def)

lemma getitem_take2_0: "getitem (take 2 xs) 0 = getitem xs 0"
  by (simp add: getitem_def)

lemma getitem_take2_1: "getitem (take 2 xs) 1 = getitem xs 1"
  by (simp add: getitem_def)

lemma hypotenuse_length_fields:
  "hypotenuse_length F input =
     (case getitem (take 2 (str_split CHR '','' input)) 0 of Inl e \<Rightarrow> Inl e | Inr s0 \<Rightarrow>
      case py_float F (strip s0) of Inl e \<Rightarrow> Inl e | Inr a \<Rightarrow>
      case getitem (take 2 (str_split CHR '','' input)) 1 of Inl e \<Rightarrow> Inl e | Inr s1 \<Rightarrow>
      case py_float F (strip s1) of Inl e \<Rightarrow> Inl e | Inr b \<Rightarrow>
      case square F a of Inl e \<Rightarrow> Inl e | Inr a2 \<Rightarrow>
      case square F b of Inl e \<Rightarrow> Inl e | Inr b2 \<Rightarrow>
      math_sqrt F (f_add F a2 b2))"
  unfolding hypotenuse_length_def Let_def getitem_take2_0 getitem_take2_1
  by (rule refl)

lemma hypotenuse_length_raises:
  assumes "\<not> (2 \<le> length (str_split CHR '','' input) \<and>
      float_syntax (strip (str_split CHR '','' input ! 0)) \<and>
      float_syntax (strip (str_split CHR '','' input ! 1)))"
  shows "hypotenuse_length F input = Inl ValueError \<or>
         hypotenuse_length F input = Inl IndexError"
  using assms str_split_not_Nil [of "CHR '',''" input]
  by (auto simp: hypotenuse_length_def Let_def getitem_def py_float_def
      split: sum.splits)

lemma hypotenuse_length_returns:
  assumes "2 \<le> length (str_split CHR '','' input)"
    and "float_syntax (strip (str_split CHR '','' input ! 0))"
    and "float_syntax (strip (str_split CHR '','' input ! 1))"
  shows "hypotenuse_length F input =
     (case square F (f_literal F (strip (str_split CHR '','' input ! 0))) of
        Inl e \<Rightarrow> Inl e
      | Inr a2 \<Rightarrow>
         (case square F (f_literal F (strip (str_split CHR '','' input ! 1))) of
            Inl e \<Rightarrow> Inl e
          | Inr b2 \<Rightarrow> math_sqrt F (f_add F a2 b2)))"
  using assms
  by (auto simp: hypotenuse_length_def Let_def getitem_def py_float_def
      split: sum.splits)

text \<open>
  Claim C10: the hypotenuse handler is partial. It raises (\<open>ValueError\<close> or \<open>IndexError\<close>)
  for every input that does not have at least two comma-separated fields whose first two
  are accepted by \<open>float()\<close> once stripped. Its result depends on the first two fields
  only: whatever follows a second comma is ignored.
\<close>

theorem hypotenuse_length_partial:
  "(\<not> (2 \<le> length (str_split CHR '','' input) \<and>
       float_syntax (strip (str_split CHR '','' input ! 0)) \<and>
       float_syntax (strip (str_split CHR '','' input ! 1))) \<longrightarrow>
    hypotenuse_length F input = Inl ValueError \<or>
    hypotenuse_length F input = Inl IndexError) \<and>
   (take 2 (str_split CHR '','' input) = take 2 (str_split CHR '','' input') \<longrightarrow>
    hypotenuse_length F input = hypotenuse_length F input') \<and>
   (CHR '','' \<notin> set a \<and> CHR '','' \<notin> set b \<longrightarrow>
    hypotenuse_length F (a @ '','' @ b @ '','' @ rest) = hypotenuse_length F (a @ '','' @ b))"
proof (intro conjI impI)
  assume "\<not> (2 \<le> length (str_split CHR '','' input) \<and>
       float_syntax (strip (str_split CHR '','' input ! 0)) \<and>
       float_syntax (strip (str_split CHR '','' input ! 1)))"
  then show "hypotenuse_length F input = Inl ValueError \<or>
    hypotenuse_length F input = Inl IndexError"
    by (rule hypotenuse_length_raises)
next
  assume "take 2 (str_split CHR '','' input) = take 2 (str_split CHR '','' input')"
  then show "hypotenuse_length F input = hypotenuse_length F input'"
    by (simp only: hypotenuse_length_fields)
next
  assume ab: "CHR '','' \<notin> set a \<and> CHR '','' \<notin> set b"
  have "str_split CHR '','' (a @ '','' @ b @ '','' @ rest) =
      a # b # str_split CHR '','' rest"
    using ab by (simp add: str_split_append)
  moreover have "str_split CHR '','' (a @ '','' @ b) = [a, b]"
    using ab by (simp add: str_split_append str_split_no_sep)
  ultimately have "take 2 (str_split CHR '','' (a @ '','' @ b @ '','' @ rest)) =
      take 2 (str_split CHR '','' (a @ '','' @ b))"
    by simp
  then show "hypotenuse_length F (a @ '','' @ b @ '','' @ rest) =
      hypotenuse_length F (a @ '','' @ b)"
    by (simp only: hypotenuse_length_fields)
qed

lemmas float_tables = float_syntax_def floatvalue_def absfloatvalue_def floatnumber_def
  number_def exponent_def digitpart_def is_digit_def is_sign_def float_space_def
  strip_def isspace_def

text \<open>
  The date tools catch every exception of their call, and return it as text.
\<close>

lemma date_checker_catches:
  "llm (''List important historical events that occurred on '' @ date @ ''.'') = Inl str_e \<Longrightarrow>
   date_checker llm date = ''Error retrieving events: '' @ str_e \<and>
   historical_events llm date = ''Error retrieving events: '' @ str_e"
  by (simp add: date_checker_def historical_events_def)


lemma symbolic_3_4: "hypotenuse_length symbolic ''3, 4'' =
    Inr (Sqrt (Add (Square (Literal ''3'')) (Square (Literal ''4''))))"
  by (simp add: hypotenuse_length_def getitem_def py_float_def float_tables char_tables
      symbolic_def square_def math_sqrt_def)

theorem hypotenuse_length_partial_witness:
  "\<not> 2 \<le> length (str_split CHR '','' ''3'') \<and>
   (hypotenuse_length symbolic ''3'' = Inl ValueError \<or>
    hypotenuse_length symbolic ''3'' = Inl IndexError) \<and>
   \<not> float_syntax (strip (str_split CHR '','' ''3, four'' ! 1)) \<and>
   (hypotenuse_length symbolic ''3, four'' = Inl ValueError \<or>
    hypotenuse_length symbolic ''3, four'' = Inl IndexError) \<and>
   take 2 (str_split CHR '','' ''3, 4, 5'') = take 2 (str_split CHR '','' ''3, 4'') \<and>
   hypotenuse_length symbolic ''3, 4, 5'' = hypotenuse_length symbolic ''3, 4'' \<and>
   CHR '','' \<notin> set ''3'' \<and> CHR '','' \<notin> set '' 4'' \<and>
   hypotenuse_length symbolic (''3'' @ '','' @ '' 4'' @ '','' @ ''x,y'') =
     hypotenuse_length symbolic (''3'' @ '','' @ '' 4'')"
proof -
  have h1: "\<not> 2 \<le> length (str_split CHR '','' ''3'')"
    by simp
  have h2: "\<not> float_syntax (strip (str_split CHR '','' ''3, four'' ! 1))"
    by (simp add: float_tables char_tables)
  have h3: "take 2 (str_split CHR '','' ''3, 4, 5'') = take 2 (str_split CHR '','' ''3, 4'')"
    by simp
  have h4: "CHR '','' \<notin> set ''3'' \<and> CHR '','' \<notin> set '' 4''"
    by simp
  note t1 = hypotenuse_length_partial [of "''3''" symbolic "''3''" "''3''" "''3''" "''3''"]
  note t2 = hypotenuse_length_partial
    [of "''3, four''" symbolic "''3, four''" "''3''" "''3''" "''3''"]
  note t3 = hypotenuse_length_partial
    [of "''3, 4, 5''" symbolic "''3, 4''" "''3''" "'' 4''" "''x,y''"]
  show ?thesis
    using h1 h2 h3 h4 t1 t2 t3 by blast
qed

section \<open>Properties of the workflow\<close>

lemma last_message_Inr:
  "last_message s = Inr m \<longleftrightarrow> messages s \<noteq> [] \<and> last (messages s) = m"
  by (auto simp: last_message_def)

lemma last_message_add:
  "update \<noteq> [] \<Longrightarrow> last_message (add_messages s update) = Inr (last update)"
  by (simp add: last_message_def add_messages_def)

lemma messages_add: "messages (add_messages s update) = messages s @ update"
  by (simp add: add_messages_def)

lemma call_model_invokes:
  "last_message s = Inr m \<Longrightarrow> \<not> has_tool_calls m \<Longrightarrow> call_model M s = invoke_model M s"
  by (cases m) (auto simp: call_model_def)


lemma call_model_update:
  "call_model M s = Inr update \<Longrightarrow> \<exists>c tcs. update = [AIMessage c tcs]"
  by (auto simp: call_model_def invoke_model_def split: sum.splits message.splits if_splits)

lemma should_continue_AIMessage:
  "last_message s = Inr (AIMessage c tcs) \<Longrightarrow>
   should_continue s = Inr (if tcs \<noteq> [] then Tools else END)"
  by (simp add: should_continue_def)

lemma should_continue_same: "should_continue_2 s = should_continue s"
  by (auto simp: should_continue_2_def should_continue_def split: sum.splits)

lemma pending_append:
  "pending ids (xs @ ys) =
     (case pending ids xs of None \<Rightarrow> None | Some ids' \<Rightarrow> pending ids' ys)"
  by (induction ids xs rule: pending.induct) auto

lemma pending_AIMessage:
  "pending ids [AIMessage c tcs] = (if ids = [] then Some (map call_id tcs) else None)"
  by (cases ids) simp_all

lemma pending_HumanMessage:
  "pending ids [HumanMessage c] = (if ids = [] then Some [] else None)"
  by (cases ids) simp_all

lemma paired_snoc_AIMessage:
  "paired (msgs @ [AIMessage c tcs]) \<longleftrightarrow> paired msgs \<and> tcs = []"
  by (cases "pending [] msgs") (simp_all add: paired_def pending_append pending_AIMessage)

lemma paired_snoc_HumanMessage:
  "paired (msgs @ [HumanMessage c]) \<longleftrightarrow> paired msgs"
  by (cases "pending [] msgs") (simp_all add: paired_def pending_append pending_HumanMessage)

lemma paired_last:
  assumes "paired msgs" and "msgs \<noteq> []"
  shows "\<not> has_tool_calls (last msgs)"
proof (cases "last msgs")
  case (AIMessage c tcs)
  then have "msgs = butlast msgs @ [AIMessage c tcs]"
    using assms(2) by (metis append_butlast_last_id)
  then have "paired (butlast msgs @ [AIMessage c tcs])"
    using assms(1) by simp
  then show ?thesis
    using AIMessage by (simp add: paired_snoc_AIMessage)
qed simp_all

lemma invoke_all_answers:
  "invoke_all R tcs = Inr ms \<Longrightarrow> list_all2 answers tcs ms"
  by (induction tcs arbitrary: ms)
     (auto simp: invoke_def split: sum.splits if_splits)

lemma pending_answers:
  "list_all2 answers tcs ms \<Longrightarrow> pending (map call_id tcs @ ids) ms = Some ids"
proof (induction tcs ms rule: list_all2_induct)
  case Nil
  then show ?case by simp
next
  case (Cons tc tcs m ms)
  then show ?case by (cases m) simp_all
qed

lemma answers_ToolMessage: "list_all2 answers tcs ms \<Longrightarrow> list_all is_ToolMessage ms"
proof (induction tcs ms rule: list_all2_induct)
  case Nil
  then show ?case by simp
next
  case (Cons tc tcs m ms)
  then show ?case by (cases m) simp_all
qed

lemma tool_node_answers:
  assumes "last_message s = Inr (AIMessage c tcs)" and "tool_node R s = Inr results"
  shows "list_all2 answers tcs results"
  using assms by (simp add: tool_node_def invoke_all_answers)

lemma tool_node_results:
  assumes "last_message s = Inr (AIMessage c tcs)" and "tcs \<noteq> []"
    and "tool_node R s = Inr results"
  shows "results \<noteq> [] \<and> list_all is_ToolMessage results"
proof -
  have a: "list_all2 answers tcs results"
    using assms(1,3) by (rule tool_node_answers)
  then have "length tcs = length results"
    by (rule list_all2_lengthD)
  then have "results \<noteq> []"
    using assms(2) by auto
  then show ?thesis
    using a by (simp add: answers_ToolMessage)
qed

lemma log_ok_Tools:
  "log_ok Tools msgs \<longleftrightarrow>
   (\<exists>c tcs. msgs \<noteq> [] \<and> last msgs = AIMessage c tcs \<and> tcs \<noteq> [] \<and> paired (butlast msgs))"
  by (cases msgs) (auto split: message.splits)

lemma paired_after_tools:
  assumes "paired before" and "list_all2 answers tcs results"
  shows "paired (before @ [AIMessage c tcs] @ results)"
  using assms pending_answers [of tcs results "[]"]
  by (simp add: paired_def pending_append)

lemma step_log_ok:
  assumes "log_ok n (messages s)" and "step M R n s = Inr (n', s')"
  shows "log_ok n' (messages s')"
proof (cases n)
  case START
  then show ?thesis
    using assms by (auto simp: step_def node_function_def edge_def add_messages_def)
next
  case END
  then show ?thesis
    using assms by (auto simp: step_def node_function_def edge_def add_messages_def)
next
  case Chatbot
  from assms(2) Chatbot obtain update where
    u: "call_model M s = Inr update" and
    r: "should_continue (add_messages s update) = Inr n'" and
    s': "s' = add_messages s update"
    by (auto simp: step_def node_function_def edge_def split: sum.splits)
  from u have ne: "messages s \<noteq> []"
    by (auto simp: call_model_def last_message_def split: if_splits)
  have p: "paired (messages s)"
    using assms(1) Chatbot by simp
  have inv: "call_model M s = invoke_model M s"
    using call_model_invokes [of s "last (messages s)" M] paired_last [OF p ne] ne
    by (simp add: last_message_Inr)
  from u inv obtain c tcs where upd: "update = [AIMessage c tcs]"
    by (auto simp: invoke_model_def split: sum.splits)
  have n': "n' = (if tcs \<noteq> [] then Tools else END)"
    using r upd should_continue_AIMessage [of "add_messages s update" c tcs]
    by (simp add: last_message_add)
  show ?thesis
  proof (cases "tcs = []")
    case True
    then show ?thesis
      using n' s' upd p by (simp add: messages_add paired_snoc_AIMessage)
  next
    case False
    then show ?thesis
      using n' s' upd p by (simp add: messages_add log_ok_Tools del: log_ok.simps(1))
  qed
next
  case Tools
  from assms(1) Tools obtain c tcs where
    ne: "messages s \<noteq> []" and l: "last (messages s) = AIMessage c tcs" and
    p: "paired (butlast (messages s))"
    by (auto simp: log_ok_Tools simp del: log_ok.simps(1))
  from assms(2) Tools obtain results where
    t: "tool_node R s = Inr results" and s': "s' = add_messages s results" and n': "n' = Chatbot"
    by (auto simp: step_def node_function_def edge_def split: sum.splits)
  have "list_all2 answers tcs results"
    using tool_node_answers [of s c tcs R results] ne l t by (simp add: last_message_Inr)
  then have "paired (butlast (messages s) @ [AIMessage c tcs] @ results)"
    using p by (rule paired_after_tools [rotated])
  moreover have "messages s = butlast (messages s) @ [AIMessage c tcs]"
    using ne l by (metis append_butlast_last_id)
  ultimately have "paired (messages s @ results)"
    by (metis append_assoc)
  then show ?thesis
    using n' s' by (simp add: messages_add)
qed


lemma run_log_ok:
  "log_ok n (messages s) \<Longrightarrow> run M R k n s = Inr (n', s') \<Longrightarrow> log_ok n' (messages s')"
proof (induction k arbitrary: n s)
  case 0
  then show ?case by simp
next
  case (Suc k)
  show ?case
  proof (cases "n = END")
    case True
    then show ?thesis using Suc.prems by simp
  next
    case False
    with Suc.prems(2) obtain n1 s1 where
      st: "step M R n s = Inr (n1, s1)" and rn: "run M R k n1 s1 = Inr (n', s')"
      by (auto split: sum.splits)
    from step_log_ok [OF Suc.prems(1) st] have "log_ok n1 (messages s1)" .
    from Suc.IH [OF this rn] show ?thesis .
  qed
qed


subsection \<open>Claim C1\<close>




subsection \<open>Claim C3\<close>

text \<open>
  The claim as stated, for every conversation state, fails on the empty state: there the
  routing function raises instead of returning the terminal branch.
\<close>

theorem should_continue_empty: "should_continue \<lparr>messages = []\<rparr> = Inl IndexError"
  by (simp add: should_continue_def last_message_def)


text \<open>
  Claim C3, as amended: for every state whose log ends with an assistant message, the
  routing function returns the tools branch if and only if that message has tool calls, and
  \<open>END\<close> otherwise; both cells' definitions agree. The state the function is given in the
  workflow is always such a state, since it runs on the log \<open>call_model\<close> has just appended
  an assistant message to. So a model result with no tool calls ends the run.
\<close>

theorem should_continue_routes:
  "(last_message s = Inr (AIMessage c tcs) \<longrightarrow>
      (should_continue s = Inr Tools \<longleftrightarrow> tcs \<noteq> []) \<and>
      (should_continue s = Inr END \<longleftrightarrow> tcs = [])) \<and>
   should_continue_2 s = should_continue s \<and>
   (call_model M s = Inr update \<longrightarrow>
      (\<exists>c' tcs'. update = [AIMessage c' tcs'] \<and>
         (should_continue (add_messages s update) = Inr Tools \<longleftrightarrow> tcs' \<noteq> []) \<and>
         (should_continue (add_messages s update) = Inr END \<longleftrightarrow> tcs' = []))) \<and>
   (last_message s = Inr m \<and> \<not> has_tool_calls m \<and> M (messages s) = Inr (c, []) \<longrightarrow>
      call_model M s = Inr [AIMessage c []] \<and>
      edge Chatbot (add_messages s [AIMessage c []]) = Inr END)"
proof (intro conjI impI)
  assume "last_message s = Inr (AIMessage c tcs)"
  then have r: "should_continue s = Inr (if tcs \<noteq> [] then Tools else END)"
    by (rule should_continue_AIMessage)
  show "should_continue s = Inr Tools \<longleftrightarrow> tcs \<noteq> []"
    using r by simp
  show "should_continue s = Inr END \<longleftrightarrow> tcs = []"
    using r by simp
next
  show "should_continue_2 s = should_continue s"
    by (rule should_continue_same)
next
  assume u: "call_model M s = Inr update"
  then obtain c' tcs' where upd: "update = [AIMessage c' tcs']"
    using call_model_update by blast
  have "should_continue (add_messages s update) = Inr (if tcs' \<noteq> [] then Tools else END)"
    using upd should_continue_AIMessage [of "add_messages s update" c' tcs']
    by (simp add: last_message_add)
  then show "\<exists>c' tcs'. update = [AIMessage c' tcs'] \<and>
         (should_continue (add_messages s update) = Inr Tools \<longleftrightarrow> tcs' \<noteq> []) \<and>
         (should_continue (add_messages s update) = Inr END \<longleftrightarrow> tcs' = [])"
    using upd by auto
next
  assume a: "last_message s = Inr m \<and> \<not> has_tool_calls m \<and> M (messages s) = Inr (c, [])"
  show "call_model M s = Inr [AIMessage c []]"
    using a call_model_invokes [of s m M] by (simp add: invoke_model_def)
  show "edge Chatbot (add_messages s [AIMessage c []]) = Inr END"
    using should_continue_AIMessage [of "add_messages s [AIMessage c []]" c "[]"]
    by (simp add: edge_def last_message_add)
qed

theorem should_continue_routes_witness:
  "last_message asked = Inr (AIMessage '''' [palindrome_call ''level'']) \<and>
   should_continue asked = Inr Tools \<and>
   call_model answering_model question = Inr [AIMessage ''model answer'' []] \<and>
   should_continue (add_messages question [AIMessage ''model answer'' []]) = Inr END \<and>
   last_message question = Inr (HumanMessage ''Is `level` a palindrome?'') \<and>
   \<not> has_tool_calls (HumanMessage ''Is `level` a palindrome?'') \<and>
   answering_model (messages question) = Inr (''model answer'', []) \<and>
   edge Chatbot (add_messages question [AIMessage ''model answer'' []]) = Inr END"
proof -
  note on_asked = should_continue_routes
    [of asked "''''" "[palindrome_call ''level'']" answering_model
      "[AIMessage ''model answer'' []]" "HumanMessage ''Is `level` a palindrome?''"]
  note on_question = should_continue_routes
    [of question "''model answer''" "[]" answering_model
      "[AIMessage ''model answer'' []]" "HumanMessage ''Is `level` a palindrome?''"]
  have h1: "last_message asked = Inr (AIMessage '''' [palindrome_call ''level''])"
    by (simp add: asked_def last_message_def)
  have h3: "last_message question = Inr (HumanMessage ''Is `level` a palindrome?'') \<and>
      \<not> has_tool_calls (HumanMessage ''Is `level` a palindrome?'') \<and>
      answering_model (messages question) = Inr (''model answer'', [])"
    by (simp add: question_def last_message_def answering_model_def)
  have c1: "should_continue asked = Inr Tools"
    using on_asked h1 by simp
  have c3: "call_model answering_model question = Inr [AIMessage ''model answer'' []] \<and>
      edge Chatbot (add_messages question [AIMessage ''model answer'' []]) = Inr END"
    using on_question h3 by blast
  have c2: "should_continue (add_messages question [AIMessage ''model answer'' []]) = Inr END"
    using on_question c3 by auto
  show ?thesis
    using h1 h3 c1 c2 c3 by blast
qed

subsection \<open>Claim C4\<close>







subsection \<open>Claim C5\<close>

text \<open>
  Claim C5: in every run started on a paired log, the log is paired again whenever the run
  is at the chatbot node, where the model is invoked, and when it is over. An assistant
  message with tool calls sends the run to the tools node; the tools step appends, for the
  \<open>N\<close> tool calls of that message, exactly \<open>N\<close> tool messages that answer them in the
  same order, and leads back to the chatbot node. The empty log is paired, and a paired
  log stays so when the user's next message is appended, so every turn of a conversation
  starts on a paired log.
\<close>

theorem tool_calls_answered:
  "(paired (messages s) \<and> run M R k START s = Inr (n, s') \<longrightarrow> log_ok n (messages s')) \<and>
   (call_model M s = Inr [AIMessage c tcs] \<and> tcs \<noteq> [] \<longrightarrow>
      step M R Chatbot s = Inr (Tools, add_messages s [AIMessage c tcs])) \<and>
   (last_message s = Inr (AIMessage c tcs) \<and> step M R Tools s = Inr (n, s') \<longrightarrow>
      n = Chatbot \<and>
      (\<exists>results. messages s' = messages s @ results \<and> list_all2 answers tcs results)) \<and>
   (log_ok Tools (messages s) \<and> step M R Tools s = Inr (n, s') \<longrightarrow>
      n = Chatbot \<and> paired (messages s')) \<and>
   paired [] \<and>
   (paired (messages s) \<longrightarrow> paired (messages (add_messages s [HumanMessage q])))"
proof (intro conjI impI)
  show "paired []"
    by (simp add: paired_def)
next
  assume "paired (messages s)"
  then show "paired (messages (add_messages s [HumanMessage q]))"
    by (simp add: messages_add paired_snoc_HumanMessage)
next
  assume "paired (messages s) \<and> run M R k START s = Inr (n, s')"
  then show "log_ok n (messages s')"
    using run_log_ok [of START s M R k n s'] by simp
next
  assume a: "call_model M s = Inr [AIMessage c tcs] \<and> tcs \<noteq> []"
  then have "should_continue (add_messages s [AIMessage c tcs]) = Inr Tools"
    using should_continue_AIMessage [of "add_messages s [AIMessage c tcs]" c tcs]
    by (simp add: last_message_add)
  then show "step M R Chatbot s = Inr (Tools, add_messages s [AIMessage c tcs])"
    using a by (simp add: step_def node_function_def edge_def)
next
  assume a: "last_message s = Inr (AIMessage c tcs) \<and> step M R Tools s = Inr (n, s')"
  then obtain results where
    t: "tool_node R s = Inr results" and s': "s' = add_messages s results" and n: "n = Chatbot"
    by (auto simp: step_def node_function_def edge_def split: sum.splits)
  show "n = Chatbot" by (rule n)
  have "list_all2 answers tcs results"
    using a t tool_node_answers by blast
  then show "\<exists>results. messages s' = messages s @ results \<and> list_all2 answers tcs results"
    using s' by (auto simp: messages_add)
next
  assume a: "log_ok Tools (messages s) \<and> step M R Tools s = Inr (n, s')"
  then have n: "n = Chatbot"
    by (auto simp: step_def node_function_def edge_def split: sum.splits)
  show "n = Chatbot" by (rule n)
  show "paired (messages s')"
    using a n step_log_ok [of Tools s M R n s'] by simp
qed

theorem tool_calls_answered_witness:
  "paired (messages question) \<and>
   run palindrome_agent (tools no_llm) 3 START question =
     Inr (Chatbot, add_messages asked tool_answer) \<and>
   log_ok Chatbot (messages (add_messages asked tool_answer)) \<and>
   call_model palindrome_agent question = Inr [AIMessage '''' [palindrome_call ''level'']] \<and>
   [palindrome_call ''level''] \<noteq> [] \<and>
   step palindrome_agent (tools no_llm) Chatbot question =
     Inr (Tools, add_messages question [AIMessage '''' [palindrome_call ''level'']]) \<and>
   last_message asked = Inr (AIMessage '''' [palindrome_call ''level'']) \<and>
   step palindrome_agent (tools no_llm) Tools asked =
     Inr (Chatbot, add_messages asked tool_answer) \<and>
   (\<exists>results. messages (add_messages asked tool_answer) = messages asked @ results \<and>
      list_all2 answers [palindrome_call ''level''] results) \<and>
   log_ok Tools (messages asked) \<and>
   paired (messages (add_messages asked tool_answer)) \<and>
   paired (messages (add_messages question [HumanMessage question_2]))"
proof -
  note from_question = tool_calls_answered
    [of question palindrome_agent "tools no_llm" 3 Chatbot "add_messages asked tool_answer"
      "''''" "[palindrome_call ''level'']" question_2]
  note from_asked = tool_calls_answered
    [of asked palindrome_agent "tools no_llm" 3 Chatbot "add_messages asked tool_answer"
      "''''" "[palindrome_call ''level'']"]
  have h1: "paired (messages question)"
    by (simp add: question_def paired_def)
  have h2: "run palindrome_agent (tools no_llm) 3 START question =
     Inr (Chatbot, add_messages asked tool_answer)"
    by code_simp
  have h3: "call_model palindrome_agent question =
      Inr [AIMessage '''' [palindrome_call ''level'']] \<and> [palindrome_call ''level''] \<noteq> []"
    by (simp add: call_model_def question_def last_message_def invoke_model_def
        palindrome_agent_def)
  have h4: "last_message asked = Inr (AIMessage '''' [palindrome_call ''level''])"
    by (simp add: asked_def last_message_def)
  have h5: "step palindrome_agent (tools no_llm) Tools asked =
     Inr (Chatbot, add_messages asked tool_answer)"
    by code_simp
  have h6: "log_ok Tools (messages asked)"
    by (simp add: asked_def paired_def)
  have c1: "log_ok Chatbot (messages (add_messages asked tool_answer))"
    using from_question h1 h2 by blast
  have c2: "step palindrome_agent (tools no_llm) Chatbot question =
     Inr (Tools, add_messages question [AIMessage '''' [palindrome_call ''level'']])"
    using from_question h3 by blast
  have c3: "\<exists>results. messages (add_messages asked tool_answer) = messages asked @ results \<and>
      list_all2 answers [palindrome_call ''level''] results"
    using from_asked h4 h5 by blast
  have c4: "paired (messages (add_messages asked tool_answer))"
    using from_asked h6 h5 by blast
  have c5: "paired (messages (add_messages question [HumanMessage question_2]))"
    using from_question h1 by blast
  show ?thesis
    using h1 h2 h3 h4 h5 h6 c1 c2 c3 c4 c5 by blast
qed

end
